theory Spec2Isabelle
  imports Complex_Main "HOL-Library.Word" "HOL-Library.Multiset"
begin

section \<open>Arrays\<close>

text \<open>
  A two-dimensional array is a list of rows. \<open>has_shape r c m\<close> says that \<open>m\<close> is an
  array of shape \<open>(r, c)\<close>: JAX arrays are never ragged, so only lists with this property
  stand for arrays of the program.
\<close>

definition has_shape :: "nat \<Rightarrow> nat \<Rightarrow> 'a list list \<Rightarrow> bool" where
  "has_shape r c m \<longleftrightarrow> length m = r \<and> list_all (\<lambda>row. length row = c) m"

text \<open>The slice \<open>xs[::2]\<close>: the elements at the even positions.\<close>

fun stride2 :: "'a list \<Rightarrow> 'a list" where
  "stride2 [] = []"
| "stride2 [x] = [x]"
| "stride2 (x # y # xs) = x # stride2 xs"

section \<open>The Pong example: \<open>pong_preprocess\<close>\<close>

text \<open>
  A frame of the Atari emulator has shape \<open>(210, 160, 3)\<close> with entries of type
  \<open>uint8\<close>. The last axis is modelled as a triple, so that it has length 3 by
  construction; \<open>img[..., 0]\<close> is the first component.
\<close>

type_synonym pixel = "8 word \<times> 8 word \<times> 8 word"

definition pong_preprocess :: "pixel list list \<Rightarrow> 8 word list list" where
  "pong_preprocess img =
    (let img1 = drop 35 (take 195 img);
         img2 = map (\<lambda>row. map fst (stride2 row)) (stride2 img1);
         img3 = map (map (\<lambda>v. if v = 144 \<or> v = 109 then 0 else v)) img2;
         img4 = map (map (\<lambda>v. if v \<noteq> 0 then 1 else v)) img3
     in img4)"

text \<open>A frame filled with the colour of the paddles and the ball.\<close>

definition pong_frame :: "pixel list list" where
  "pong_frame = replicate 210 (replicate 160 (236, 236, 236))"

section \<open>The one-max problem\<close>

text \<open>
  \<open>jnp.sum(bitstrings, axis=1)\<close> on a Boolean array sums in \<open>int32\<close>, which wraps
  around; the state is handed back as it came.
\<close>

definition evaluate :: "'s \<Rightarrow> bool list list \<Rightarrow> 32 word list \<times> 's" where
  "evaluate state bitstrings =
    (let fitness = map (\<lambda>row. sum_list (map of_bool row)) bitstrings
     in (fitness, state))"

section \<open>Fitness values\<close>

text \<open>
  The algorithm compares fitness values and never computes with them. A fitness is a
  floating-point number read as the real number it denotes, or one of the two infinities
  (\<open>setup\<close> writes \<open>jnp.inf\<close>); NaN is left out. Lower is better throughout: \<open>setup\<close>
  gives the individuals that are not evaluated yet the fitness \<open>+inf\<close>, and the
  workflow of the notebook, built with \<open>opt_direction="max"\<close>, reports the negated
  number of ones (\<open>-93\<close>, later \<open>-100\<close>) as its best fitness.
\<close>

datatype fitness = NInf | Fin real | PInf

instantiation fitness :: linorder
begin

fun less_eq_fitness :: "fitness \<Rightarrow> fitness \<Rightarrow> bool" where
  "less_eq_fitness NInf y = True"
| "less_eq_fitness (Fin a) NInf = False"
| "less_eq_fitness (Fin a) (Fin b) = (a \<le> b)"
| "less_eq_fitness (Fin a) PInf = True"
| "less_eq_fitness PInf PInf = True"
| "less_eq_fitness PInf y = False"

definition less_fitness :: "fitness \<Rightarrow> fitness \<Rightarrow> bool" where
  "less_fitness x y \<longleftrightarrow> x \<le> y \<and> \<not> y \<le> x"

instance
proof
  fix x y z :: fitness
  show "(x < y) = (x \<le> y \<and> \<not> y \<le> x)"
    by (simp add: less_fitness_def)
  show "x \<le> x"
    by (cases x) simp_all
  show "x \<le> y \<Longrightarrow> y \<le> z \<Longrightarrow> x \<le> z"
    by (cases x; cases y; cases z) simp_all
  show "x \<le> y \<Longrightarrow> y \<le> x \<Longrightarrow> x = y"
    by (cases x; cases y) simp_all
  show "x \<le> y \<or> y \<le> x"
    by (cases x; cases y) auto
qed

end

fun negate :: "fitness \<Rightarrow> fitness" where
  "negate NInf = PInf"
| "negate (Fin a) = Fin (- a)"
| "negate PInf = NInf"

text \<open>
  An \<open>int32\<close> fitness, as \<open>OneMax.evaluate\<close> returns it, with its exact value: the
  monitor of the notebook reports it as an \<open>int32\<close>.
\<close>

definition of_int32 :: "32 word \<Rightarrow> fitness" where
  "of_int32 v = Fin (real_of_int (sint v))"

text \<open>
  \<open>tell\<close> merges the fitness it is given with the \<open>float32\<close> array \<open>state.fit\<close>, and
  \<open>jnp.concatenate\<close> turns an \<open>int32\<close> entry into the nearest \<open>float32\<close>, ties to the
  even mantissa. \<open>float32_ulp a\<close> is the distance between neighbouring \<open>float32\<close> values
  at the magnitude \<open>a\<close>: integers below \<open>2 ^ 24\<close> are kept, larger ones are rounded.
  A fitness that is not an integer is a floating-point number already.
\<close>

function float32_ulp :: "nat \<Rightarrow> nat" where
  "float32_ulp a = (if a < 2 ^ 24 then 1 else 2 * float32_ulp (a div 2))"
  by pat_completeness auto
termination
  by (relation "measure id") auto

declare float32_ulp.simps [simp del]

definition round_float32 :: "int \<Rightarrow> int" where
  "round_float32 z =
    (let a = nat \<bar>z\<bar>;
         q = float32_ulp a;
         d = a div q;
         r = a mod q;
         m = (if q < 2 * r \<or> (q = 2 * r \<and> odd d) then d + 1 else d)
     in sgn z * int (m * q))"

fun to_float32 :: "fitness \<Rightarrow> fitness" where
  "to_float32 (Fin x) =
     (if x = real_of_int \<lfloor>x\<rfloor> then Fin (real_of_int (round_float32 \<lfloor>x\<rfloor>)) else Fin x)"
| "to_float32 NInf = NInf"
| "to_float32 PInf = PInf"

section \<open>The operators the algorithm is built from\<close>

text \<open>
  The random number generator of JAX and the operators \<open>mutation.bitflip\<close> and
  \<open>crossover.one_point\<close> are not among the sources: they are parameters of the model.
  A key determines what they return. \<open>random_split P k n i\<close> is the key at position
  \<open>i\<close> of \<open>random.split(k, n)\<close>, and \<open>random_uniform P k shape i j\<close> is the entry at
  \<open>(i, j)\<close> of \<open>random.uniform(k, shape)\<close>.
\<close>

record 'k primitives =
  random_split :: "'k \<Rightarrow> nat \<Rightarrow> nat \<Rightarrow> 'k"
  random_uniform :: "'k \<Rightarrow> nat \<times> nat \<Rightarrow> nat \<Rightarrow> nat \<Rightarrow> real"
  bitflip :: "'k \<Rightarrow> bool list list \<Rightarrow> real \<Rightarrow> bool list list"
  one_point :: "'k \<Rightarrow> bool list list \<Rightarrow> bool list list"

text \<open>What is assumed of the two operators where shapes matter: the offspring have the shape of the parents.\<close>

definition shape_preserving :: "'k primitives \<Rightarrow> bool" where
  "shape_preserving P \<longleftrightarrow>
    (\<forall>k m p r c. has_shape r c m \<longrightarrow>
       has_shape r c (bitflip P k m p) \<and> has_shape r c (one_point P k m))"

text \<open>
  Modelled from the spec: \<open>selection.topk_fit\<close> is not among the sources. An algorithm
  consumes fitness feedback in \<open>tell\<close>, and \<open>CustomGA.tell\<close> does its selection with this
  operator: it is taken to return the \<open>topk\<close> individuals of best, that is lowest,
  fitness together with their fitness, best first and ties in the order of the input
  (a stable \<open>argsort\<close> of the fitness, cut after \<open>topk\<close> positions). The population and
  the fitness passed to it have the same length.
\<close>

definition topk_fit :: "'a list \<Rightarrow> fitness list \<Rightarrow> nat \<Rightarrow> 'a list \<times> fitness list" where
  "topk_fit population fitness topk =
    (let index = take topk (sort_key (\<lambda>i. fitness ! i) [0..<length fitness])
     in (map (\<lambda>i. population ! i) index, map (\<lambda>i. fitness ! i) index))"


section \<open>The genetic algorithm \<open>CustomGA\<close>\<close>

text \<open>The hyperparameters, fixed when the algorithm is created.\<close>

record CustomGA =
  pop_size :: nat
  ndim :: nat
  flip_prob :: real

text \<open>
  Modelled from the spec: the class \<open>State\<close> is not among the sources. A state is an
  immutable snapshot of the mutable data; \<open>State(pop=..., ...)\<close> is the record with
  these fields, and \<open>state.update(f=v, ...)\<close> is the state with the named fields
  replaced and every other field as in \<open>state\<close>. The placeholder \<open>jnp.empty\<close> of the
  offspring is an array of zeros in JAX, \<open>False\<close> as a bit.
\<close>

record 'k state =
  pop :: "bool list list"
  offsprings :: "bool list list"
  fit :: "fitness list"
  key :: 'k

definition setup_ga :: "'k primitives \<Rightarrow> CustomGA \<Rightarrow> 'k \<Rightarrow> 'k state" where
  "setup_ga P self k =
    (let k' = random_split P k 2 0;
         subkey = random_split P k 2 1;
         pop0 = map (\<lambda>i. map (\<lambda>j. random_uniform P subkey (pop_size self, ndim self) i j < 0.5)
                  [0..<ndim self]) [0..<pop_size self]
     in \<lparr>pop = pop0,
         offsprings = replicate (pop_size self * 2) (replicate (ndim self) False),
         fit = replicate (pop_size self) PInf,
         key = k'\<rparr>)"

definition ask :: "'k primitives \<Rightarrow> CustomGA \<Rightarrow> 'k state \<Rightarrow> bool list list \<times> 'k state" where
  "ask P self state =
    (let k' = random_split P (key state) 3 0;
         mut_key = random_split P (key state) 3 1;
         x_key = random_split P (key state) 3 2;
         offs = bitflip P mut_key (pop state) (flip_prob self) @ one_point P x_key (pop state)
     in (offs, state\<lparr>offsprings := offs, key := k'\<rparr>))"

definition tell :: "CustomGA \<Rightarrow> 'k state \<Rightarrow> fitness list \<Rightarrow> 'k state" where
  "tell self state fitness =
    (let merged_pop = pop state @ offsprings state;
         merged_fit = fit state @ fitness;
         (new_pop, new_fit) = topk_fit merged_pop merged_fit (pop_size self)
     in state\<lparr>pop := new_pop, fit := new_fit\<rparr>)"




text \<open>
  The shapes of a state of the algorithm. \<open>jnp.concatenate\<close> raises when the rows of
  its arguments differ in length. On states of these shapes, with operators that return
  offspring of the shape of the parents and with one fitness for each offspring, no
  concatenation in \<open>ask\<close> or \<open>tell\<close> raises: there the total definitions above stand for
  the program.
\<close>

definition wf_state :: "CustomGA \<Rightarrow> 'k state \<Rightarrow> bool" where
  "wf_state self s \<longleftrightarrow>
     has_shape (pop_size self) (ndim self) (pop s) \<and>
     length (fit s) = pop_size self \<and>
     has_shape (2 * pop_size self) (ndim self) (offsprings s)"

text \<open>
  A sequence of calls on the algorithm, each on the state the one before returned. A
  \<open>Tell\<close> matches when its fitness vector has one entry for each offspring.
\<close>

datatype call = Ask | Tell "fitness list"

fun run_calls :: "'k primitives \<Rightarrow> CustomGA \<Rightarrow> 'k state \<Rightarrow> call list \<Rightarrow> 'k state" where
  "run_calls P self s [] = s"
| "run_calls P self s (Ask # cs) = run_calls P self (snd (ask P self s)) cs"
| "run_calls P self s (Tell fitness # cs) = run_calls P self (tell self s fitness) cs"

fun matching :: "CustomGA \<Rightarrow> call \<Rightarrow> bool" where
  "matching self Ask = True"
| "matching self (Tell fitness) = (length fitness = 2 * pop_size self)"

section \<open>Monitor and workflow\<close>

text \<open>
  Modelled from the spec: the monitor \<open>StdSOMonitor\<close> is not among the sources. A
  monitor is an observer that records the metrics (fitness, population) emitted while
  the workflow runs, and \<open>get_best_fitness\<close> is the best fitness over all steps
  executed so far; a monitor that has recorded no fitness has none to report. The
  monitor is an object outside the state, so its content is passed along explicitly. It
  is read here once all emitted data has been collected.
\<close>

record 'x monitor =
  fitness_history :: "fitness list list"
  population_history :: "'x list list"

definition new_monitor :: "'x monitor" where
  "new_monitor = \<lparr>fitness_history = [], population_history = []\<rparr>"

definition record_fit :: "'x monitor \<Rightarrow> fitness list \<Rightarrow> 'x monitor" where
  "record_fit m fitness = m\<lparr>fitness_history := fitness_history m @ [fitness]\<rparr>"

definition record_population :: "'x monitor \<Rightarrow> 'x list \<Rightarrow> 'x monitor" where
  "record_population m population =
     m\<lparr>population_history := population_history m @ [population]\<rparr>"

definition best_of :: "fitness list \<Rightarrow> fitness option" where
  "best_of fs = (if fs = [] then None else Some (Min (set fs)))"

definition get_best_fitness :: "'x monitor \<Rightarrow> fitness option" where
  "get_best_fitness m = best_of (concat (fitness_history m))"

text \<open>
  \<open>at_least_as_good new old\<close>: the best fitness \<open>new\<close> is not worse than the best
  fitness \<open>old\<close> reported earlier. Before anything is recorded there is nothing to
  fall behind.
\<close>

fun at_least_as_good :: "fitness option \<Rightarrow> fitness option \<Rightarrow> bool" where
  "at_least_as_good new None = True"
| "at_least_as_good None (Some b) = False"
| "at_least_as_good (Some b') (Some b) = (b' \<le> b)"

text \<open>
  Modelled from the spec: the workflow \<open>StdWorkflow\<close> is not among the sources. A
  workflow pairs an algorithm (\<open>ask\<close>, \<open>tell\<close>), a problem (\<open>evaluate\<close>) and a monitor,
  and is driven by \<open>init\<close> and repeated \<open>step\<close> calls that thread the state. \<open>init\<close>
  builds the state of the algorithm and of the problem from the key (how the key is
  divided between the two is part of the two setup functions). \<open>step\<close> asks the
  algorithm for candidates, has the problem evaluate them, turns the fitness so that
  lower is better (negated for \<open>opt_direction="max"\<close>), emits it to the monitor, the
  candidates too when \<open>record_pop\<close> is set, and tells it to the algorithm.
\<close>

datatype direction = Minimize | Maximize

record ('k, 'a, 'p, 'x) workflow =
  algorithm_setup :: "'k \<Rightarrow> 'a"
  algorithm_ask :: "'a \<Rightarrow> 'x list \<times> 'a"
  algorithm_tell :: "'a \<Rightarrow> fitness list \<Rightarrow> 'a"
  problem_setup :: "'k \<Rightarrow> 'p"
  problem_evaluate :: "'p \<Rightarrow> 'x list \<Rightarrow> fitness list \<times> 'p"
  record_pop :: bool
  opt_direction :: direction

fun oriented :: "direction \<Rightarrow> fitness list \<Rightarrow> fitness list" where
  "oriented Minimize fitness = fitness"
| "oriented Maximize fitness = map negate fitness"

definition init :: "('k, 'a, 'p, 'x) workflow \<Rightarrow> 'k \<Rightarrow> 'a \<times> 'p" where
  "init w k = (algorithm_setup w k, problem_setup w k)"

definition step ::
  "('k, 'a, 'p, 'x) workflow \<Rightarrow> 'x monitor \<times> 'a \<times> 'p \<Rightarrow> 'x monitor \<times> 'a \<times> 'p" where
  "step w = (\<lambda>(m, a, p).
    let (candidates, a1) = algorithm_ask w a;
        (fitness, p1) = problem_evaluate w p candidates;
        fitness' = oriented (opt_direction w) fitness;
        m1 = (if record_pop w then record_population m candidates else m);
        m2 = record_fit m1 fitness';
        a2 = algorithm_tell w a1 fitness'
    in (m2, a2, p1))"

text \<open>A run: \<open>init\<close> with the key, then \<open>n\<close> steps, on a monitor with content \<open>m\<close>.\<close>

definition run ::
  "('k, 'a, 'p, 'x) workflow \<Rightarrow> 'x monitor \<Rightarrow> 'k \<Rightarrow> nat \<Rightarrow> 'x monitor \<times> 'a \<times> 'p" where
  "run w m k n = (step w ^^ n) (m, init w k)"

text \<open>
  The workflow of the notebook: \<open>StdWorkflow(algorithm, problem, monitor, record_pop=True,
  opt_direction="max")\<close> with \<open>CustomGA\<close> and \<open>OneMax\<close>, whose state is empty.
\<close>

definition onemax_workflow ::
  "'k primitives \<Rightarrow> CustomGA \<Rightarrow> ('k, 'k state, unit, bool list) workflow" where
  "onemax_workflow P self =
    \<lparr>algorithm_setup = setup_ga P self,
     algorithm_ask = ask P self,
     algorithm_tell = (\<lambda>state fitness. tell self state (map to_float32 fitness)),
     problem_setup = (\<lambda>k. ()),
     problem_evaluate = (\<lambda>p bitstrings. let (fitness, p') = evaluate p bitstrings
                                         in (map of_int32 fitness, p')),
     record_pop = True,
     opt_direction = Maximize\<rparr>"

section \<open>Concrete inputs\<close>

text \<open>
  Stand-ins for the random number generator and the two operators, with natural numbers
  as keys, to run the definitions on concrete inputs: every bit is flipped, and the
  crossover moves the first row to the end.
\<close>

definition demo_primitives :: "nat primitives" where
  "demo_primitives =
    \<lparr>random_split = (\<lambda>k n i. k * n + i + 1),
     random_uniform = (\<lambda>k shape i j. if even (k + i + j) then 1 / 4 else 3 / 4),
     bitflip = (\<lambda>k m p. map (map Not) m),
     one_point = (\<lambda>k m. rotate1 m)\<rparr>"

definition demo_ga :: CustomGA where
  "demo_ga = \<lparr>pop_size = 2, ndim = 3, flip_prob = 1 / 10\<rparr>"


definition demo_state :: "nat state" where
  "demo_state =
    \<lparr>pop = [[True, False, False], [False, False, False]],
     offsprings = [[True, True, False], [True, False, False], [False, False, True], [True, True, True]],
     fit = [Fin (- 1), Fin 0],
     key = 5\<rparr>"

section \<open>Properties of the array operations\<close>

lemma length_stride2: "length (stride2 xs) = (length xs + 1) div 2"
  by (induction xs rule: stride2.induct) simp_all

lemma nth_stride2: "i < length (stride2 xs) \<Longrightarrow> stride2 xs ! i = xs ! (2 * i)"
proof (induction xs arbitrary: i rule: stride2.induct)
  case (3 x y xs)
  then show ?case by (cases i) simp_all
qed simp_all

lemma has_shape_nth: "has_shape r c m \<Longrightarrow> i < r \<Longrightarrow> length (m ! i) = c"
  by (simp add: has_shape_def list_all_length)

lemma has_shape_append:
  "has_shape a n x \<Longrightarrow> has_shape b n y \<Longrightarrow> has_shape (a + b) n (x @ y)"
  by (simp add: has_shape_def)

lemma sum_of_bool_count:
  "sum_list (map of_bool row) = (of_nat (count_list row True) :: 'a :: semiring_1)"
  by (induction row) simp_all

lemma count_list_le_length: "count_list xs x \<le> length xs"
  by (induction xs) auto

section \<open>The preprocessing of a Pong frame\<close>

lemma pong_row:
  assumes "length row = 160" and "j < 80"
  shows "length (stride2 row) = 80" and "map fst (stride2 row) ! j = fst (row ! (2 * j))"
  using assms by (simp_all add: length_stride2 nth_stride2)

lemma pong_rows:
  assumes "has_shape 210 160 img" and "i < 80"
  shows "length (stride2 (drop 35 (take 195 img))) = 80"
    and "stride2 (drop 35 (take 195 img)) ! i = img ! (35 + 2 * i)"
  using assms by (simp_all add: has_shape_def length_stride2 nth_stride2)

text \<open>
  C10. A frame of shape \<open>(210, 160, 3)\<close> is mapped to an array of shape \<open>(80, 80)\<close> with
  entries 0 and 1 only. The entry at \<open>(i, j)\<close> comes from the red channel of the pixel at
  \<open>(35 + 2 i, 2 j)\<close>: it is 0 when that channel is 144 or 109 (the two backgrounds) or
  already 0, and 1 for every other value.
\<close>

theorem pong_preprocess_shape_and_values:
  assumes "has_shape 210 160 img"
  shows "has_shape 80 80 (pong_preprocess img) \<and>
    (\<forall>i<80. \<forall>j<80.
       pong_preprocess img ! i ! j =
         (let r = fst (img ! (35 + 2 * i) ! (2 * j))
          in if r = 144 \<or> r = 109 \<or> r = 0 then 0 else 1) \<and>
       pong_preprocess img ! i ! j \<in> {0, 1})"
proof -
  let ?rows = "stride2 (drop 35 (take 195 img))"
  have len: "length ?rows = 80"
    using assms by (simp add: has_shape_def length_stride2)
  have row: "?rows ! i = img ! (35 + 2 * i)" if "i < 80" for i
    using pong_rows(2) [OF assms that] .
  have wide: "length (img ! (35 + 2 * i)) = 160" if "i < 80" for i
    using has_shape_nth [OF assms, of "35 + 2 * i"] that by simp
  have shape: "has_shape 80 80 (pong_preprocess img)"
    unfolding has_shape_def list_all_length pong_preprocess_def Let_def
    using len by (simp add: row wide length_stride2)
  have val: "pong_preprocess img ! i ! j =
      (let r = fst (img ! (35 + 2 * i) ! (2 * j))
       in if r = 144 \<or> r = 109 \<or> r = 0 then 0 else 1)"
    if "i < 80" and "j < 80" for i j
  proof -
    have "length (stride2 (img ! (35 + 2 * i))) = 80"
      using pong_row(1) [OF wide [OF that(1)] that(2)] .
    then show ?thesis
      unfolding pong_preprocess_def Let_def
      using that len pong_row(2) [OF wide [OF that(1)] that(2)]
      by (simp add: row)
  qed
  show ?thesis
    using shape val by (simp add: Let_def)
qed

theorem pong_preprocess_witness:
  "has_shape 210 160 pong_frame \<and> has_shape 80 80 (pong_preprocess pong_frame) \<and>
   pong_preprocess pong_frame ! 3 ! 5 = 1"
proof -
  have shape: "has_shape 210 160 pong_frame"
    by (simp add: has_shape_def pong_frame_def list_all_length)
  have "pong_frame ! (35 + 2 * 3) ! (2 * 5) = (236, 236, 236)"
    by (simp add: pong_frame_def)
  with pong_preprocess_shape_and_values [OF shape] shape show ?thesis
    by (auto simp: Let_def)
qed

section \<open>The fitness of a bit string\<close>

text \<open>
  C4. \<open>OneMax.evaluate\<close> returns one fitness per row of the bit-string matrix, the
  number of ones of that row as an \<open>int32\<close> value, and the state it was given. For rows
  of fewer than \<open>2 ^ 31\<close> bits the \<open>int32\<close> value read as a signed integer is the number
  of ones itself.
\<close>

theorem evaluate_counts_ones:
  assumes "has_shape n num_bits bitstrings"
  shows "length (fst (evaluate state bitstrings)) = n \<and>
    snd (evaluate state bitstrings) = state \<and>
    (\<forall>i<n.
       fst (evaluate state bitstrings) ! i = of_nat (count_list (bitstrings ! i) True) \<and>
       (num_bits < 2 ^ 31 \<longrightarrow>
          sint (fst (evaluate state bitstrings) ! i) = int (count_list (bitstrings ! i) True)))"
proof -
  have len: "length bitstrings = n"
    using assms by (simp add: has_shape_def)
  have small: "sint (word_of_nat (count_list (bitstrings ! i) True) :: 32 word)
      = int (count_list (bitstrings ! i) True)"
    if "i < n" and "num_bits < 2 ^ 31" for i
  proof -
    have "count_list (bitstrings ! i) True \<le> num_bits"
      using count_list_le_length [of "bitstrings ! i" True] has_shape_nth [OF assms that(1)]
      by simp
    then have "int (count_list (bitstrings ! i) True) < 2 ^ 31"
      using that(2) by simp
    then show ?thesis
      by (simp add: signed_of_nat signed_take_bit_int_eq_self)
  qed
  show ?thesis
    using len small by (simp add: evaluate_def sum_of_bool_count)
qed

theorem evaluate_counts_ones_witness:
  "has_shape 2 5 [[False, True, False, True, True], [True, True, True, True, True]] \<and>
   map sint (fst (evaluate () [[False, True, False, True, True], [True, True, True, True, True]]))
     = [3, 5]"
proof -
  have shape: "has_shape 2 5 [[False, True, False, True, True], [True, True, True, True, True]]"
    by (simp add: has_shape_def)
  show ?thesis
    using evaluate_counts_ones [OF shape, of "()"] shape
    by (simp add: evaluate_def)
qed

text \<open>The rounding of an \<open>int32\<close> to \<open>float32\<close>, around the first integers that are not kept.\<close>

lemma float32_ulp_small: "a < 2 ^ 24 \<Longrightarrow> float32_ulp a = 1"
  by (subst float32_ulp.simps) simp

lemma float32_ulp_big: "\<not> a < 2 ^ 24 \<Longrightarrow> float32_ulp a = 2 * float32_ulp (a div 2)"
  by (subst float32_ulp.simps) simp

lemma round_float32_examples:
  "round_float32 93 = 93"
  "round_float32 (- 16777216) = - 16777216"
  "round_float32 16777217 = 16777216"
  "round_float32 16777219 = 16777220"
  "round_float32 (- 2147483647) = - 2147483648"
  by (simp_all add: round_float32_def Let_def float32_ulp_small float32_ulp_big)

lemma to_float32_examples:
  "to_float32 (of_int32 (- 93)) = Fin (- 93)"
  "to_float32 PInf = PInf"
  by (simp_all add: of_int32_def round_float32_def Let_def float32_ulp_small)

section \<open>Selection of the best\<close>

lemma map_nth_sort_key: "map (\<lambda>i. xs ! i) (sort_key (\<lambda>i. xs ! i) [0..<length xs]) = sort xs"
proof -
  let ?ys = "map (\<lambda>i. xs ! i) (sort_key (\<lambda>i. xs ! i) [0..<length xs])"
  have "mset ?ys = image_mset (\<lambda>i. xs ! i) (mset [0..<length xs])"
    by (simp del: mset_upt)
  also have "\<dots> = mset (map (\<lambda>i. xs ! i) [0..<length xs])"
    by (simp del: mset_upt)
  also have "\<dots> = mset xs"
    by (simp only: map_nth)
  finally have "mset ?ys = mset xs" .
  moreover have "sorted ?ys"
    by (rule sorted_sort_key)
  ultimately show ?thesis
    by (rule properties_for_sort [symmetric])
qed

lemma snd_topk_fit: "snd (topk_fit p f k) = take k (sort f)"
  by (simp add: topk_fit_def Let_def take_map [symmetric] map_nth_sort_key del: take_map)

lemma length_topk_fit:
  "length (fst (topk_fit p f k)) = min k (length f)"
  "length (snd (topk_fit p f k)) = min k (length f)"
  by (simp_all add: topk_fit_def Let_def min.commute)





lemma has_shape_topk_fit:
  assumes "has_shape (length f) n p" and "k \<le> length f"
  shows "has_shape k n (fst (topk_fit p f k))"
proof -
  have "\<forall>i \<in> set (sort_key (\<lambda>i. f ! i) [0..<length f]). length (p ! i) = n"
    using assms(1) by (simp add: has_shape_def list_all_length)
  then have "\<forall>i \<in> set (take k (sort_key (\<lambda>i. f ! i) [0..<length f])). length (p ! i) = n"
    by (meson in_set_takeD)
  then show ?thesis
    using assms(2) by (simp add: has_shape_def topk_fit_def Let_def list_all_iff)
qed

lemma Min_take_sort:
  assumes "xs \<noteq> []" and "0 < k"
  shows "Min (set (take k (sort xs))) = Min (set xs)"
proof -
  obtain y ys where s: "sort xs = y # ys"
    using assms(1) by (cases "sort xs") (auto dest: arg_cong [where f = length])
  obtain k' where k: "k = Suc k'"
    using assms(2) by (cases k) auto
  have "sorted (y # ys)"
    using sorted_sort [of xs] s by simp
  then have low: "\<forall>z \<in> set (y # ys). y \<le> z"
    by auto
  have "Min (set (take k (sort xs))) = y"
    unfolding s k using low by (intro Min_eqI) (auto dest: in_set_takeD)
  moreover have "Min (set (sort xs)) = y"
    unfolding s using low by (intro Min_eqI) auto
  ultimately show ?thesis by simp
qed

lemma tell_fields:
  "pop (tell self s fitness) = fst (topk_fit (pop s @ offsprings s) (fit s @ fitness) (pop_size self))"
  "fit (tell self s fitness) = take (pop_size self) (sort (fit s @ fitness))"
  "offsprings (tell self s fitness) = offsprings s"
  "key (tell self s fitness) = key s"
  using snd_topk_fit [of "pop s @ offsprings s" "fit s @ fitness" "pop_size self"]
  by (simp_all add: tell_def Let_def split_beta)

text \<open>Two concrete selections: ties keep the order of the input, and the best come first.\<close>

lemma topk_fit_stable:
  "topk_fit [''a'', ''b'', ''c'', ''d''] [Fin 3, PInf, Fin (- 2), Fin 3] 3 =
     ([''c'', ''a'', ''d''], [Fin (- 2), Fin 3, Fin 3])"
  by code_simp

lemma tell_demo_state:
  "tell demo_ga demo_state [Fin (- 2), Fin (- 1), Fin (- 1), Fin (- 3)] =
     demo_state\<lparr>pop := [[True, True, True], [True, True, False]], fit := [Fin (- 3), Fin (- 2)]\<rparr>"
  by code_simp

section \<open>Shapes of the states of the algorithm\<close>

lemma wf_setup_ga: "wf_state self (setup_ga P self k)"
  by (simp add: wf_state_def setup_ga_def Let_def has_shape_def list_all_iff)

lemma has_shape_ask:
  assumes "shape_preserving P" and "has_shape (pop_size self) (ndim self) (pop s)"
  shows "has_shape (2 * pop_size self) (ndim self) (fst (ask P self s))"
proof -
  have "has_shape (pop_size self) (ndim self) (bitflip P k (pop s) q)"
       "has_shape (pop_size self) (ndim self) (one_point P k (pop s))" for k q
    using assms unfolding shape_preserving_def by blast+
  from has_shape_append [OF this] show ?thesis
    by (simp add: ask_def Let_def mult_2)
qed

lemma wf_ask:
  assumes "shape_preserving P" and "wf_state self s"
  shows "wf_state self (snd (ask P self s))"
proof -
  have "has_shape (pop_size self) (ndim self) (pop s)"
    using assms(2) by (simp add: wf_state_def)
  from has_shape_ask [OF assms(1) this] assms(2) show ?thesis
    by (simp add: wf_state_def ask_def Let_def)
qed

lemma wf_tell:
  assumes "wf_state self s" and "length fitness = 2 * pop_size self"
  shows "wf_state self (tell self s fitness)"
proof -
  let ?mp = "pop s @ offsprings s" and ?mf = "fit s @ fitness"
  have len: "length ?mf = 3 * pop_size self"
    using assms by (simp add: wf_state_def)
  have "has_shape (pop_size self + 2 * pop_size self) (ndim self) ?mp"
    using assms(1) by (intro has_shape_append) (simp_all add: wf_state_def)
  then have "has_shape (length ?mf) (ndim self) ?mp"
    using len by simp
  from has_shape_topk_fit [OF this, of "pop_size self"] len
  have "has_shape (pop_size self) (ndim self) (fst (topk_fit ?mp ?mf (pop_size self)))"
    by simp
  moreover have "length (snd (topk_fit ?mp ?mf (pop_size self))) = pop_size self"
    using len by (simp add: length_topk_fit del: length_append)
  ultimately show ?thesis
    using assms(1) by (simp add: wf_state_def tell_def Let_def split_beta)
qed

lemma wf_run_calls:
  assumes "shape_preserving P"
  shows "wf_state self s \<Longrightarrow> list_all (matching self) cs \<Longrightarrow>
    wf_state self (run_calls P self s cs)"
proof (induction cs arbitrary: s)
  case Nil
  then show ?case by simp
next
  case (Cons c cs)
  then show ?case
    by (cases c) (simp_all add: wf_ask [OF assms] wf_tell)
qed

lemma demo_shape_preserving: "shape_preserving demo_primitives"
  by (simp add: shape_preserving_def demo_primitives_def has_shape_def list_all_iff)


section \<open>The monitor along a run\<close>

lemma fitness_history_step:
  "fitness_history (fst (step w (m, s))) =
     fitness_history m @
       [oriented (opt_direction w) (fst (problem_evaluate w (snd s) (fst (algorithm_ask w (fst s)))))]"
  by (cases s) (simp add: step_def Let_def split_beta record_fit_def record_population_def)

lemma best_of_append: "at_least_as_good (best_of (fs @ gs)) (best_of fs)"
proof (cases "fs = []")
  case True
  then show ?thesis by (simp add: best_of_def)
next
  case False
  then have "Min (set (fs @ gs)) \<le> Min (set fs)"
    by (intro Min_antimono) auto
  with False show ?thesis
    by (simp add: best_of_def)
qed

lemma step_best:
  "at_least_as_good (get_best_fitness (fst (step w (m, s)))) (get_best_fitness m)"
  by (simp add: get_best_fitness_def fitness_history_step best_of_append)

section \<open>The contract of \<open>ask\<close> and \<open>tell\<close>\<close>







text \<open>
  C6. \<open>ask\<close> replaces the fields \<open>offsprings\<close> and \<open>key\<close> and leaves \<open>pop\<close> and
  \<open>fit\<close> as they are; \<open>tell\<close> replaces \<open>pop\<close> and \<open>fit\<close> and leaves \<open>offsprings\<close> and
  \<open>key\<close> as they are.
\<close>

theorem ask_tell_frame:
  "pop (snd (ask P self s)) = pop s \<and> fit (snd (ask P self s)) = fit s \<and>
   snd (ask P self s) =
     s\<lparr>offsprings := offsprings (snd (ask P self s)), key := key (snd (ask P self s))\<rparr> \<and>
   offsprings (tell self s fitness) = offsprings s \<and> key (tell self s fitness) = key s \<and>
   tell self s fitness =
     s\<lparr>pop := pop (tell self s fitness), fit := fit (tell self s fitness)\<rparr>"
  by (simp add: ask_def tell_def Let_def split_beta)

theorem ask_tell_frame_witness:
  "pop (snd (ask demo_primitives demo_ga demo_state)) = [[True, False, False], [False, False, False]] \<and>
   fit (snd (ask demo_primitives demo_ga demo_state)) = [Fin (- 1), Fin 0] \<and>
   key (tell demo_ga demo_state [Fin (- 2), Fin (- 1), Fin (- 1), Fin (- 3)]) = 5 \<and>
   length (offsprings (tell demo_ga demo_state [Fin (- 2), Fin (- 1), Fin (- 1), Fin (- 3)])) = 4"
  using ask_tell_frame [of demo_primitives demo_ga demo_state "[Fin (- 2), Fin (- 1), Fin (- 1), Fin (- 3)]"]
  by (simp add: demo_state_def)

text \<open>
  C7. Every state reached from \<open>setup\<close> by a sequence of \<open>ask\<close> and \<open>tell\<close> calls,
  each \<open>tell\<close> with a fitness vector of \<open>2 * pop_size\<close> entries, has a population of
  shape \<open>(pop_size, ndim)\<close>, \<open>pop_size\<close> fitness values and offspring of shape
  \<open>(2 * pop_size, ndim)\<close>. The two operators are assumed to return offspring of the shape
  of the parents.
\<close>

theorem shape_invariant:
  assumes "shape_preserving P" and "list_all (matching self) calls"
  shows "has_shape (pop_size self) (ndim self) (pop (run_calls P self (setup_ga P self k) calls)) \<and>
    length (fit (run_calls P self (setup_ga P self k) calls)) = pop_size self \<and>
    has_shape (2 * pop_size self) (ndim self)
      (offsprings (run_calls P self (setup_ga P self k) calls))"
  using wf_run_calls [OF assms(1) wf_setup_ga assms(2)] by (simp add: wf_state_def)

theorem shape_invariant_witness:
  "shape_preserving demo_primitives \<and>
   list_all (matching demo_ga) [Ask, Tell [Fin 1, Fin 2, NInf, PInf], Ask] \<and>
   has_shape 2 3
     (pop (run_calls demo_primitives demo_ga (setup_ga demo_primitives demo_ga 0)
        [Ask, Tell [Fin 1, Fin 2, NInf, PInf], Ask])) \<and>
   length (fit (run_calls demo_primitives demo_ga (setup_ga demo_primitives demo_ga 0)
        [Ask, Tell [Fin 1, Fin 2, NInf, PInf], Ask])) = 2 \<and>
   has_shape 4 3
     (offsprings (run_calls demo_primitives demo_ga (setup_ga demo_primitives demo_ga 0)
        [Ask, Tell [Fin 1, Fin 2, NInf, PInf], Ask]))"
proof -
  have m: "list_all (matching demo_ga) [Ask, Tell [Fin 1, Fin 2, NInf, PInf], Ask]"
    by (simp add: demo_ga_def)
  have "pop_size demo_ga = 2" "ndim demo_ga = 3"
    by (simp_all add: demo_ga_def)
  with shape_invariant [OF demo_shape_preserving m, of 0] demo_shape_preserving m
  show ?thesis
    by simp
qed

section \<open>The best fitness never gets worse\<close>

text \<open>
  C1. A step of a workflow never worsens the best fitness the monitor reports, from any
  state and any content of the monitor, hence along every run; and a \<open>tell\<close> of
  \<open>CustomGA\<close> never worsens the best (lowest) fitness held in the field \<open>fit\<close>, when the
  population is not empty.
\<close>

theorem best_fitness_never_worsens:
  "at_least_as_good (get_best_fitness (fst (step w (m, s)))) (get_best_fitness m) \<and>
   at_least_as_good (get_best_fitness (fst (run w m k (Suc n)))) (get_best_fitness (fst (run w m k n))) \<and>
   (0 < pop_size self \<longrightarrow> fit st \<noteq> [] \<longrightarrow>
      Min (set (fit (tell self st fitness))) \<le> Min (set (fit st)))"
proof -
  have "at_least_as_good (get_best_fitness (fst (run w m k (Suc n))))
      (get_best_fitness (fst (run w m k n)))"
    using step_best [of w "fst (run w m k n)" "snd (run w m k n)"]
    by (simp add: run_def)
  moreover have "Min (set (fit (tell self st fitness))) \<le> Min (set (fit st))"
    if "0 < pop_size self" and "fit st \<noteq> []"
  proof -
    have "Min (set (fit (tell self st fitness))) = Min (set (fit st @ fitness))"
      using that by (simp add: tell_fields(2) Min_take_sort)
    also have "\<dots> \<le> Min (set (fit st))"
      using that(2) by (intro Min_antimono) auto
    finally show ?thesis .
  qed
  ultimately show ?thesis
    by (simp add: step_best)
qed

theorem best_fitness_never_worsens_witness:
  "0 < pop_size demo_ga \<and> fit demo_state \<noteq> [] \<and>
   Min (set (fit (tell demo_ga demo_state [Fin (- 2), Fin (- 1), Fin (- 1), Fin (- 3)])))
     \<le> Min (set (fit demo_state)) \<and>
   at_least_as_good
     (get_best_fitness (fst (run (onemax_workflow demo_primitives demo_ga) new_monitor 0 (Suc 1))))
     (get_best_fitness (fst (run (onemax_workflow demo_primitives demo_ga) new_monitor 0 1)))"
proof -
  have h: "0 < pop_size demo_ga" "fit demo_state \<noteq> []"
    by (simp_all add: demo_ga_def demo_state_def)
  show ?thesis
    using h best_fitness_never_worsens
      [where w = "onemax_workflow demo_primitives demo_ga" and m = new_monitor and k = 0
        and n = 1 and self = demo_ga and st = demo_state
        and fitness = "[Fin (- 2), Fin (- 1), Fin (- 1), Fin (- 3)]"]
    by simp
qed

end
